theory Spec2Isabelle
  imports Main "HOL-Library.Word"
begin

section \<open>Drizzle-Dome: the clothesline controller of drizzle_dome_main.ino\<close>

text \<open>
  The sketch is one global state, a \<open>setup\<close> that runs once and a \<open>loop\<close> that the
  Arduino runtime calls forever. The model passes the state explicitly: every global
  variable of the sketch is a field of the record \<open>ctrl\<close>, and the hardware the sketch
  writes to (pin levels, PWM duties, pin directions, the serial line) is a store inside
  the same record. \<open>unsigned long\<close> is 32 bits wide on the Arduino Uno, so the
  timestamps are \<open>32 word\<close> and \<open>millis() - motorStartTime\<close> wraps around as in C.
\<close>

subsection \<open>Data\<close>

datatype SystemState = EXTENDED | RETRACTING | RETRACTED | EXTENDING

datatype level = LOW | HIGH

datatype pinmode = INPUT | OUTPUT

type_synonym ulong = "32 word"

record ctrl =
  retractionDelay :: ulong
  motorRunTime :: ulong
  lastRainTime :: ulong
  motorStartTime :: ulong
  isRetracted :: bool
  motorsRunning :: bool
  currentState :: SystemState
  pinLevel :: "nat \<Rightarrow> level"
  pwmDuty :: "nat \<Rightarrow> int"
  pinModes :: "nat \<Rightarrow> pinmode"
  serialBaud :: "nat option"
  serialOut :: "string list"

text \<open>
  \<open>millis()\<close> is called at up to four places in one pass of \<open>loop\<close>, and two calls need
  not return the same value. A pass therefore receives one reading per place:
  \<open>at_rain\<close> for line 73 (the refresh of \<open>lastRainTime\<close>), \<open>at_guard\<close> for the
  elapsed-time comparisons (lines 116, 128, 148), \<open>at_start\<close> for the assignments to
  \<open>motorStartTime\<close> (lines 108, 132, 143) and \<open>at_led\<close> for the blink (line 200).
\<close>

record clock_reads =
  at_rain :: ulong
  at_guard :: ulong
  at_start :: ulong
  at_led :: ulong

subsection \<open>Pin numbers\<close>

definition motor1A :: nat where "motor1A = 7"
definition motor1B :: nat where "motor1B = 6"
definition motor1Enable :: nat where "motor1Enable = 9"
definition motor2A :: nat where "motor2A = 5"
definition motor2B :: nat where "motor2B = 4"
definition motor2Enable :: nat where "motor2Enable = 10"
definition rainSensorPin :: nat where "rainSensorPin = 2"
definition statusLED :: nat where "statusLED = 13"

subsection \<open>The Arduino calls the sketch makes\<close>

text \<open>
  Each call writes one cell of the hardware store. \<open>digitalWrite\<close> takes an integer in
  C and drives the pin low exactly when that integer is 0; \<open>level_of_val\<close> is that test.
  \<open>delay\<close> changes nothing the sketch can observe except the clock, which is an input
  here.
\<close>

definition pinMode :: "nat \<Rightarrow> pinmode \<Rightarrow> ctrl \<Rightarrow> ctrl" where
  "pinMode p m s = s\<lparr>pinModes := (pinModes s)(p := m)\<rparr>"

definition digitalWrite :: "nat \<Rightarrow> level \<Rightarrow> ctrl \<Rightarrow> ctrl" where
  "digitalWrite p v s = s\<lparr>pinLevel := (pinLevel s)(p := v)\<rparr>"

definition analogWrite :: "nat \<Rightarrow> int \<Rightarrow> ctrl \<Rightarrow> ctrl" where
  "analogWrite p d s = s\<lparr>pwmDuty := (pwmDuty s)(p := d)\<rparr>"

definition Serial_begin :: "nat \<Rightarrow> ctrl \<Rightarrow> ctrl" where
  "Serial_begin b s = s\<lparr>serialBaud := Some b\<rparr>"

definition println :: "string \<Rightarrow> ctrl \<Rightarrow> ctrl" where
  "println msg s = s\<lparr>serialOut := serialOut s @ [msg]\<rparr>"

definition level_of_val :: "8 word \<Rightarrow> level" where
  "level_of_val v = (if v = 0 then LOW else HIGH)"

subsection \<open>Motor actuator\<close>

definition startRetractionMotors :: "ctrl \<Rightarrow> ctrl" where
  "startRetractionMotors s =
     println ''Motors: RETRACTING clothesline...''
       ((digitalWrite motor2B LOW
          (digitalWrite motor2A HIGH
            (digitalWrite motor1B LOW
              (digitalWrite motor1A HIGH s))))\<lparr>motorsRunning := True\<rparr>)"

definition startExtensionMotors :: "ctrl \<Rightarrow> ctrl" where
  "startExtensionMotors s =
     println ''Motors: EXTENDING clothesline...''
       ((digitalWrite motor2B HIGH
          (digitalWrite motor2A LOW
            (digitalWrite motor1B HIGH
              (digitalWrite motor1A LOW s))))\<lparr>motorsRunning := True\<rparr>)"

definition stopMotors :: "ctrl \<Rightarrow> ctrl" where
  "stopMotors s =
     println ''Motors: STOPPED''
       ((digitalWrite motor2B LOW
          (digitalWrite motor2A LOW
            (digitalWrite motor1B LOW
              (digitalWrite motor1A LOW s))))\<lparr>motorsRunning := False\<rparr>)"

subsection \<open>State handlers\<close>

definition handleExtendedState :: "bool \<Rightarrow> clock_reads \<Rightarrow> ctrl \<Rightarrow> ctrl" where
  "handleExtendedState rainDetected rd s =
     (if rainDetected then
        (startRetractionMotors
           (println ''Rain detected! Starting retraction...'' s))
          \<lparr>currentState := RETRACTING, motorStartTime := at_start rd, isRetracted := False\<rparr>
      else s)"

definition handleRetractingState :: "bool \<Rightarrow> clock_reads \<Rightarrow> ctrl \<Rightarrow> ctrl" where
  "handleRetractingState rainDetected rd s =
     (if at_guard rd - motorStartTime s \<ge> motorRunTime s then
        println ''Clothesline fully retracted and safe!''
          ((stopMotors s)\<lparr>currentState := RETRACTED, isRetracted := True\<rparr>)
      else s)"

definition handleRetractedState :: "bool \<Rightarrow> clock_reads \<Rightarrow> ctrl \<Rightarrow> ctrl" where
  "handleRetractedState rainDetected rd s =
     (if \<not> rainDetected \<and> at_guard rd - lastRainTime s \<ge> retractionDelay s then
        (startExtensionMotors
           (println ''No rain detected for safe period. Starting extension...'' s))
          \<lparr>currentState := EXTENDING, motorStartTime := at_start rd\<rparr>
      else s)"

definition handleExtendingState :: "bool \<Rightarrow> clock_reads \<Rightarrow> ctrl \<Rightarrow> ctrl" where
  "handleExtendingState rainDetected rd s =
     (if rainDetected then
        (startRetractionMotors
           (println ''EMERGENCY: Rain detected during extension! Retracting immediately!'' s))
          \<lparr>currentState := RETRACTING, motorStartTime := at_start rd\<rparr>
      else if at_guard rd - motorStartTime s \<ge> motorRunTime s then
        println ''Clothesline fully extended and ready for use!''
          ((stopMotors s)\<lparr>currentState := EXTENDED, isRetracted := False\<rparr>)
      else s)"

subsection \<open>Status LED\<close>

definition updateStatusLED :: "clock_reads \<Rightarrow> ctrl \<Rightarrow> ctrl" where
  "updateStatusLED rd s =
     (case currentState s of
        EXTENDED \<Rightarrow> digitalWrite statusLED HIGH s
      | RETRACTED \<Rightarrow> digitalWrite statusLED LOW s
      | RETRACTING \<Rightarrow> digitalWrite statusLED (level_of_val (ucast ((at_led rd div 200) mod 2))) s
      | EXTENDING \<Rightarrow> digitalWrite statusLED (level_of_val (ucast ((at_led rd div 200) mod 2))) s)"

subsection \<open>Initialisation and the control loop\<close>

text \<open>\<open>power_on\<close> is the state the global initialisers give; \<open>setup_sketch\<close> is the
  sketch's \<open>setup()\<close>, renamed because \<open>setup\<close> is a reserved word of Isabelle.\<close>

definition power_on :: ctrl where
  "power_on =
     \<lparr>retractionDelay = 10000, motorRunTime = 5000, lastRainTime = 0, motorStartTime = 0,
      isRetracted = False, motorsRunning = False, currentState = EXTENDED,
      pinLevel = (\<lambda>_. LOW), pwmDuty = (\<lambda>_. 0), pinModes = (\<lambda>_. INPUT),
      serialBaud = None, serialOut = []\<rparr>"

definition setup_sketch :: "ctrl \<Rightarrow> ctrl" where
  "setup_sketch s =
     digitalWrite statusLED HIGH
      (println ''Clothesline in EXTENDED position''
        (println ''Drizzle-Dome System Initialized ''
          (Serial_begin 9600
            (stopMotors
              (analogWrite motor2Enable 150
                (analogWrite motor1Enable 150
                  (pinMode statusLED OUTPUT
                    (pinMode rainSensorPin INPUT
                      (pinMode motor2Enable OUTPUT
                        (pinMode motor2B OUTPUT
                          (pinMode motor2A OUTPUT
                            (pinMode motor1Enable OUTPUT
                              (pinMode motor1B OUTPUT
                                (pinMode motor1A OUTPUT s))))))))))))))"

text \<open>
  One pass of \<open>loop\<close>: \<open>rainStatus\<close> is what \<open>digitalRead(rainSensorPin)\<close> returned and
  \<open>rd\<close> holds what the calls of \<open>millis()\<close> returned.
\<close>

definition loop :: "level \<Rightarrow> clock_reads \<Rightarrow> ctrl \<Rightarrow> ctrl" where
  "loop rainStatus rd s =
     (let rainDetected = (rainStatus = HIGH);
          s1 = (if rainDetected then s\<lparr>lastRainTime := at_rain rd\<rparr> else s);
          s2 = (case currentState s1 of
                  EXTENDED \<Rightarrow> handleExtendedState rainDetected rd s1
                | RETRACTING \<Rightarrow> handleRetractingState rainDetected rd s1
                | RETRACTED \<Rightarrow> handleRetractedState rainDetected rd s1
                | EXTENDING \<Rightarrow> handleExtendingState rainDetected rd s1)
      in updateStatusLED rd s2)"

text \<open>
  A tick is a pass of \<open>loop\<close> in which every call of \<open>millis()\<close> returns the same
  sample \<open>now\<close>, with the rain sensor read as a boolean.
\<close>

definition sample :: "ulong \<Rightarrow> clock_reads" where
  "sample now = \<lparr>at_rain = now, at_guard = now, at_start = now, at_led = now\<rparr>"

definition tick :: "bool \<Rightarrow> ulong \<Rightarrow> ctrl \<Rightarrow> ctrl" where
  "tick rainDetected now s = loop (if rainDetected then HIGH else LOW) (sample now) s"

fun run :: "(bool \<times> ulong) list \<Rightarrow> ctrl \<Rightarrow> ctrl" where
  "run [] s = s"
| "run ((rainDetected, now) # ins) s = run ins (tick rainDetected now s)"

text \<open>
  The reachable states: the one \<open>setup_sketch\<close> leaves, and whatever a pass of \<open>loop\<close> makes
  of a reachable state, for any sensor level and any clock readings.
\<close>

inductive reachable :: "ctrl \<Rightarrow> bool" where
  init: "reachable (setup_sketch power_on)"
| step: "reachable s \<Longrightarrow> reachable (loop rainStatus rd s)"

subsection \<open>Observations used in the properties\<close>

text \<open>The four direction outputs, in the order motor 1 A, motor 1 B, motor 2 A, motor 2 B.\<close>

definition direction :: "ctrl \<Rightarrow> level \<times> level \<times> level \<times> level" where
  "direction s = (pinLevel s motor1A, pinLevel s motor1B, pinLevel s motor2A, pinLevel s motor2B)"

definition moving :: "SystemState \<Rightarrow> bool" where
  "moving st = (st = RETRACTING \<or> st = EXTENDING)"

text \<open>
  The condition under which the handler of the current state leaves that state, read off
  the \<open>if\<close> conditions of the four handlers.
\<close>

definition transition_guard :: "ctrl \<Rightarrow> bool \<Rightarrow> ulong \<Rightarrow> bool" where
  "transition_guard s rainDetected now =
     (case currentState s of
        EXTENDED \<Rightarrow> rainDetected
      | RETRACTING \<Rightarrow> now - motorStartTime s \<ge> motorRunTime s
      | RETRACTED \<Rightarrow> \<not> rainDetected \<and> now - lastRainTime s \<ge> retractionDelay s
      | EXTENDING \<Rightarrow> rainDetected \<or> now - motorStartTime s \<ge> motorRunTime s)"

text \<open>The level \<open>updateStatusLED\<close> puts on the LED, as a function of state and time.\<close>

definition led_level :: "SystemState \<Rightarrow> ulong \<Rightarrow> level" where
  "led_level st now =
     (case st of
        EXTENDED \<Rightarrow> HIGH
      | RETRACTED \<Rightarrow> LOW
      | RETRACTING \<Rightarrow> (if (now div 200) mod 2 = 1 then HIGH else LOW)
      | EXTENDING \<Rightarrow> (if (now div 200) mod 2 = 1 then HIGH else LOW))"

text \<open>The three patterns the actuator functions write on the direction outputs.\<close>

definition retract_dir :: "level \<times> level \<times> level \<times> level" where
  "retract_dir = (HIGH, LOW, HIGH, LOW)"

definition extend_dir :: "level \<times> level \<times> level \<times> level" where
  "extend_dir = (LOW, HIGH, LOW, HIGH)"

definition stopped_dir :: "level \<times> level \<times> level \<times> level" where
  "stopped_dir = (LOW, LOW, LOW, LOW)"

text \<open>
  What each controller state fixes about the actuator, the two flags and the PWM duties.
\<close>

definition drive_inv :: "ctrl \<Rightarrow> bool" where
  "drive_inv s =
     ((case currentState s of
         EXTENDED \<Rightarrow> direction s = stopped_dir \<and> \<not> motorsRunning s \<and> \<not> isRetracted s
       | RETRACTING \<Rightarrow> direction s = retract_dir \<and> motorsRunning s
       | RETRACTED \<Rightarrow> direction s = stopped_dir \<and> \<not> motorsRunning s \<and> isRetracted s
       | EXTENDING \<Rightarrow> direction s = extend_dir \<and> motorsRunning s \<and> isRetracted s)
      \<and> pwmDuty s motor1Enable = 150 \<and> pwmDuty s motor2Enable = 150)"

subsection \<open>Concrete runs\<close>

text \<open>
  \<open>booted\<close> is the state after start-up. \<open>retracted_at_5000\<close> is the end of
  scenario B: rain at 0, retraction complete at 5000. \<open>extending_at_10000\<close> is the
  starting state of scenario D: after that retraction, dry until 10000.
\<close>

definition booted :: ctrl where
  "booted = setup_sketch power_on"

definition retracted_at_5000 :: ctrl where
  "retracted_at_5000 = run [(True, 0), (False, 5000)] booted"

definition extending_at_10000 :: ctrl where
  "extending_at_10000 = run [(True, 0), (False, 5000), (False, 10000)] booted"

section \<open>Properties\<close>

subsection \<open>Unfolding sets and basic facts\<close>

lemmas hw_defs = pinMode_def digitalWrite_def analogWrite_def Serial_begin_def println_def
lemmas motor_defs = startRetractionMotors_def startExtensionMotors_def stopMotors_def
lemmas handler_defs = handleExtendedState_def handleRetractingState_def
  handleRetractedState_def handleExtendingState_def
lemmas pin_defs = motor1A_def motor1B_def motor1Enable_def motor2A_def motor2B_def
  motor2Enable_def rainSensorPin_def statusLED_def
lemmas loop_defs = loop_def updateStatusLED_def handler_defs motor_defs hw_defs
lemmas dir_defs = direction_def retract_dir_def extend_dir_def stopped_dir_def

lemma run_append: "run (xs @ ys) s = run ys (run xs s)"
  by (induction xs arbitrary: s) auto

lemma reachable_tick: "reachable s \<Longrightarrow> reachable (tick r n s)"
  by (simp add: tick_def reachable.step)

lemma reachable_run: "reachable s \<Longrightarrow> reachable (run ins s)"
  by (induction ins arbitrary: s) (auto simp: reachable_tick)

lemma reachable_booted: "reachable booted"
  by (simp add: booted_def reachable.init)

lemma booted_fields:
  "currentState booted = EXTENDED" "motorsRunning booted = False" "isRetracted booted = False"
  "lastRainTime booted = 0" "motorStartTime booted = 0" "motorRunTime booted = 5000"
  "retractionDelay booted = 10000" "direction booted = stopped_dir"
  "pwmDuty booted motor1Enable = 150" "pwmDuty booted motor2Enable = 150"
  "pinLevel booted statusLED = HIGH"
  by (simp_all add: booted_def setup_sketch_def power_on_def motor_defs hw_defs pin_defs dir_defs)

lemma extending_at_10000_fields:
  "currentState extending_at_10000 = EXTENDING" "motorStartTime extending_at_10000 = 10000"
  "isRetracted extending_at_10000 = True" "motorsRunning extending_at_10000 = True"
  "direction extending_at_10000 = extend_dir" "lastRainTime extending_at_10000 = 0"
  "motorRunTime extending_at_10000 = 5000"
  by (simp_all add: extending_at_10000_def booted_def setup_sketch_def power_on_def tick_def
      sample_def loop_defs pin_defs dir_defs)

lemma reachable_extending_at_10000: "reachable extending_at_10000"
  unfolding extending_at_10000_def by (rule reachable_run [OF reachable_booted])

lemma loop_fields:
  "retractionDelay (loop st rd s) = retractionDelay s"
  "motorRunTime (loop st rd s) = motorRunTime s"
  "pwmDuty (loop st rd s) = pwmDuty s"
  "lastRainTime (loop st rd s) = (if st = HIGH then at_rain rd else lastRainTime s)"
  by (simp_all add: loop_defs Let_def split: SystemState.splits)

lemma loop_EXTENDING_rain:
  "currentState s = EXTENDING \<Longrightarrow>
   currentState (loop HIGH rd s) = RETRACTING \<and> motorStartTime (loop HIGH rd s) = at_start rd
   \<and> isRetracted (loop HIGH rd s) = isRetracted s"
  by (simp add: loop_defs)

subsection \<open>The invariant of the reachable states\<close>

lemma drive_inv_booted: "drive_inv booted"
  by (simp add: drive_inv_def booted_fields)

lemma drive_inv_loop: "drive_inv s \<Longrightarrow> drive_inv (loop st rd s)"
  by (cases "currentState s")
     (auto simp: drive_inv_def loop_defs Let_def dir_defs pin_defs)

lemma drive_inv_reachable: "reachable s \<Longrightarrow> drive_inv s"
  by (induction rule: reachable.induct)
     (simp_all add: drive_inv_booted [unfolded booted_def] drive_inv_loop)

subsection \<open>Rain during extension\<close>

text \<open>
  Claim C1. In a state with \<open>currentState = EXTENDING\<close>, a tick that samples rain ends in
  \<open>RETRACTING\<close> whatever the elapsed extension time is (there is no condition on \<open>now\<close>
  or on the old \<open>motorStartTime\<close>), and \<open>motorStartTime\<close> is the \<open>now\<close> of that tick.
  This holds for every state in \<open>EXTENDING\<close>, so for every reachable one.
\<close>

theorem rain_preempts_extension:
  "currentState s = EXTENDING \<Longrightarrow>
   currentState (tick True now s) = RETRACTING \<and> motorStartTime (tick True now s) = now"
  by (simp add: tick_def sample_def loop_EXTENDING_rain)

text \<open>Scenario D: extension started at 10000, rain at 12000, before the 5000 ms are over.\<close>

theorem rain_preempts_extension_witness:
  "currentState extending_at_10000 = EXTENDING \<and> motorStartTime extending_at_10000 = 10000
   \<and> motorRunTime extending_at_10000 = 5000
   \<and> currentState (tick True 12000 extending_at_10000) = RETRACTING
   \<and> motorStartTime (tick True 12000 extending_at_10000) = 12000"
  using rain_preempts_extension [of extending_at_10000 12000]
  by (simp add: extending_at_10000_fields)

subsection \<open>Motors and states\<close>

text \<open>
  Claim C2. In every reachable state, the state after start-up included, \<open>motorsRunning\<close>
  is true exactly when the state is \<open>RETRACTING\<close> or \<open>EXTENDING\<close>, and the direction
  outputs differ from the stopped pattern exactly then. A pass of \<open>loop\<close> that changes
  the state into \<open>RETRACTING\<close> or \<open>EXTENDING\<close> leaves the motors running in the
  matching direction, and one that changes it into \<open>RETRACTED\<close> or \<open>EXTENDED\<close> leaves
  them stopped.
\<close>

theorem motors_drive_iff_moving:
  "reachable s \<Longrightarrow>
   (motorsRunning s \<longleftrightarrow> moving (currentState s))
   \<and> (direction s \<noteq> stopped_dir \<longleftrightarrow> moving (currentState s))
   \<and> (currentState (loop rainStatus rd s) \<noteq> currentState s \<longrightarrow>
        (case currentState (loop rainStatus rd s) of
           RETRACTING \<Rightarrow> motorsRunning (loop rainStatus rd s)
                          \<and> direction (loop rainStatus rd s) = retract_dir
         | EXTENDING \<Rightarrow> motorsRunning (loop rainStatus rd s)
                          \<and> direction (loop rainStatus rd s) = extend_dir
         | RETRACTED \<Rightarrow> \<not> motorsRunning (loop rainStatus rd s)
                          \<and> direction (loop rainStatus rd s) = stopped_dir
         | EXTENDED \<Rightarrow> \<not> motorsRunning (loop rainStatus rd s)
                          \<and> direction (loop rainStatus rd s) = stopped_dir))"
proof -
  assume r: "reachable s"
  have a: "drive_inv s" using r by (rule drive_inv_reachable)
  have b: "drive_inv (loop rainStatus rd s)"
    using r by (intro drive_inv_reachable reachable.step)
  have 1: "motorsRunning s \<longleftrightarrow> moving (currentState s)"
    using a by (cases "currentState s") (simp_all add: drive_inv_def moving_def)
  have 2: "direction s \<noteq> stopped_dir \<longleftrightarrow> moving (currentState s)"
    using a by (cases "currentState s") (simp_all add: drive_inv_def moving_def dir_defs)
  have 3: "case currentState (loop rainStatus rd s) of
           RETRACTING \<Rightarrow> motorsRunning (loop rainStatus rd s)
                          \<and> direction (loop rainStatus rd s) = retract_dir
         | EXTENDING \<Rightarrow> motorsRunning (loop rainStatus rd s)
                          \<and> direction (loop rainStatus rd s) = extend_dir
         | RETRACTED \<Rightarrow> \<not> motorsRunning (loop rainStatus rd s)
                          \<and> direction (loop rainStatus rd s) = stopped_dir
         | EXTENDED \<Rightarrow> \<not> motorsRunning (loop rainStatus rd s)
                          \<and> direction (loop rainStatus rd s) = stopped_dir"
    using b by (cases "currentState (loop rainStatus rd s)") (simp_all add: drive_inv_def)
  show ?thesis using 1 2 3 by blast
qed

text \<open>The extending state of scenario D, and the pass that interrupts it with rain.\<close>

theorem motors_drive_iff_moving_witness:
  "reachable extending_at_10000
   \<and> motorsRunning extending_at_10000 \<and> moving (currentState extending_at_10000)
   \<and> direction extending_at_10000 \<noteq> stopped_dir
   \<and> currentState (loop HIGH (sample 12000) extending_at_10000)
       \<noteq> currentState extending_at_10000
   \<and> motorsRunning (loop HIGH (sample 12000) extending_at_10000)
   \<and> direction (loop HIGH (sample 12000) extending_at_10000) = retract_dir"
  using motors_drive_iff_moving [OF reachable_extending_at_10000, of HIGH "sample 12000"]
    loop_EXTENDING_rain [of extending_at_10000 "sample 12000"]
  by (simp add: extending_at_10000_fields reachable_extending_at_10000 moving_def)

subsection \<open>Status indicator\<close>

lemma word_mod_2_cases: "(x::32 word) mod 2 = 0 \<or> x mod 2 = 1"
  by (metis even_iff_mod_2_eq_zero odd_iff_mod_2_eq_one)

lemma blink_level:
  "level_of_val (ucast (((n::32 word) div 200) mod 2)) = (if (n div 200) mod 2 = 1 then HIGH else LOW)"
  using word_mod_2_cases [of "n div 200"] by (auto simp: level_of_val_def)

text \<open>
  Claim C7. \<open>updateStatusLED\<close> changes nothing but the level of the LED pin, and the
  level it writes is \<open>led_level\<close> of the current state and the clock reading: \<open>HIGH\<close> in
  \<open>EXTENDED\<close>, \<open>LOW\<close> in \<open>RETRACTED\<close>, and the value \<open>(now / 200) mod 2\<close> handed to
  \<open>digitalWrite\<close> in \<open>RETRACTING\<close> and \<open>EXTENDING\<close>. After every tick the LED shows
  \<open>led_level\<close> of the state the tick ended in.
\<close>

theorem led_is_function_of_state_and_time:
  "updateStatusLED rd s = s\<lparr>pinLevel := (pinLevel s)(statusLED := led_level (currentState s) (at_led rd))\<rparr>
   \<and> pinLevel (tick rainDetected now s) statusLED = led_level (currentState (tick rainDetected now s)) now
   \<and> led_level EXTENDED now = HIGH \<and> led_level RETRACTED now = LOW
   \<and> led_level RETRACTING now = level_of_val (ucast ((now div 200) mod 2))
   \<and> led_level EXTENDING now = level_of_val (ucast ((now div 200) mod 2))"
proof -
  have u: "\<And>rd s. updateStatusLED rd s = s\<lparr>pinLevel := (pinLevel s)(statusLED := led_level (currentState s) (at_led rd))\<rparr>"
    by (simp add: updateStatusLED_def led_level_def digitalWrite_def blink_level level_of_val_def split: SystemState.splits)
  have t: "pinLevel (tick rainDetected now s) statusLED = led_level (currentState (tick rainDetected now s)) now"
    by (simp add: tick_def loop_def Let_def u sample_def)
  show ?thesis using u t by (simp add: led_level_def blink_level)
qed

subsection \<open>Speed outputs\<close>

text \<open>
  Claim C8. The start-up code writes the duty 150 to the two enable pins and to no other
  PWM cell; the three actuator functions, the four handlers, \<open>updateStatusLED\<close> and a
  whole pass of \<open>loop\<close> leave the PWM store as it is; so in every reachable state both
  duties are 150.
\<close>

theorem pwm_duty_fixed:
  "reachable r \<Longrightarrow>
   pwmDuty r motor1Enable = 150 \<and> pwmDuty r motor2Enable = 150
   \<and> pwmDuty (setup_sketch s) = (pwmDuty s)(motor1Enable := 150, motor2Enable := 150)
   \<and> pwmDuty (startRetractionMotors s) = pwmDuty s
   \<and> pwmDuty (startExtensionMotors s) = pwmDuty s
   \<and> pwmDuty (stopMotors s) = pwmDuty s
   \<and> pwmDuty (handleExtendedState rainDetected rd s) = pwmDuty s
   \<and> pwmDuty (handleRetractingState rainDetected rd s) = pwmDuty s
   \<and> pwmDuty (handleRetractedState rainDetected rd s) = pwmDuty s
   \<and> pwmDuty (handleExtendingState rainDetected rd s) = pwmDuty s
   \<and> pwmDuty (updateStatusLED rd s) = pwmDuty s
   \<and> pwmDuty (loop rainStatus rd s) = pwmDuty s"
proof -
  assume r: "reachable r"
  have a: "pwmDuty r motor1Enable = 150 \<and> pwmDuty r motor2Enable = 150"
    using drive_inv_reachable [OF r] by (simp add: drive_inv_def)
  have b: "pwmDuty (setup_sketch s) = (pwmDuty s)(motor1Enable := 150, motor2Enable := 150)"
    by (simp add: setup_sketch_def motor_defs hw_defs)
  have c: "pwmDuty (startRetractionMotors s) = pwmDuty s" "pwmDuty (startExtensionMotors s) = pwmDuty s"
     "pwmDuty (stopMotors s) = pwmDuty s"
    by (simp_all add: motor_defs hw_defs)
  have d: "pwmDuty (handleExtendedState rainDetected rd s) = pwmDuty s"
   "pwmDuty (handleRetractingState rainDetected rd s) = pwmDuty s"
   "pwmDuty (handleRetractedState rainDetected rd s) = pwmDuty s"
   "pwmDuty (handleExtendingState rainDetected rd s) = pwmDuty s"
    by (simp_all add: handler_defs motor_defs hw_defs)
  have e: "pwmDuty (updateStatusLED rd s) = pwmDuty s"
    by (simp add: updateStatusLED_def hw_defs split: SystemState.splits)
  show ?thesis using a b c d e by (simp add: loop_fields)
qed

theorem pwm_duty_fixed_witness:
  "reachable extending_at_10000
   \<and> pwmDuty extending_at_10000 motor1Enable = 150 \<and> pwmDuty extending_at_10000 motor2Enable = 150
   \<and> pwmDuty (loop HIGH (sample 12000) extending_at_10000) = pwmDuty extending_at_10000"
  using pwm_duty_fixed [OF reachable_extending_at_10000, of extending_at_10000 True "sample 12000" HIGH]
  by (simp add: reachable_extending_at_10000)

subsection \<open>Direction outputs\<close>

text \<open>
  Claim C9. In every reachable state the four direction outputs show the retract, the
  extend or the stopped pattern; the two pins of one motor are never both \<open>HIGH\<close>, and
  the two motors have equal pin pairs.
\<close>

theorem direction_patterns:
  "reachable s \<Longrightarrow>
   (direction s = retract_dir \<or> direction s = extend_dir \<or> direction s = stopped_dir)
   \<and> \<not> (pinLevel s motor1A = HIGH \<and> pinLevel s motor1B = HIGH)
   \<and> \<not> (pinLevel s motor2A = HIGH \<and> pinLevel s motor2B = HIGH)
   \<and> pinLevel s motor1A = pinLevel s motor2A \<and> pinLevel s motor1B = pinLevel s motor2B"
proof -
  assume "reachable s"
  then have "drive_inv s" by (rule drive_inv_reachable)
  then have "direction s = retract_dir \<or> direction s = extend_dir \<or> direction s = stopped_dir"
    by (cases "currentState s") (simp_all add: drive_inv_def)
  then show ?thesis by (auto simp: dir_defs)
qed

theorem direction_patterns_witness:
  "reachable extending_at_10000 \<and> direction extending_at_10000 = extend_dir
   \<and> pinLevel extending_at_10000 motor1A = LOW \<and> pinLevel extending_at_10000 motor1B = HIGH
   \<and> pinLevel extending_at_10000 motor2A = LOW \<and> pinLevel extending_at_10000 motor2B = HIGH"
  using direction_patterns [OF reachable_extending_at_10000] extending_at_10000_fields(5)
  by (simp add: reachable_extending_at_10000 dir_defs)

subsection \<open>The flag \<open>isRetracted\<close>\<close>

lemma loop_ignores_isRetracted:
  "(loop rainStatus rd (s\<lparr>isRetracted := b\<rparr>))\<lparr>isRetracted := c\<rparr> = (loop rainStatus rd s)\<lparr>isRetracted := c\<rparr>"
  by (cases "currentState s") (simp_all add: loop_defs Let_def)

text \<open>
  Claim C10. In every reachable state in \<open>EXTENDING\<close> the flag \<open>isRetracted\<close> is true,
  and it is still true in the \<open>RETRACTING\<close> state that a rainy tick leads to from there;
  so some reachable state has the flag set without being \<open>RETRACTED\<close>. A pass of
  \<open>loop\<close> never reads the flag: started from two states that differ only in the flag, it
  ends in two states that differ only in the flag.
\<close>

theorem isRetracted_stale:
  "reachable s \<Longrightarrow>
   (currentState s = EXTENDING \<longrightarrow>
      isRetracted s
      \<and> currentState (tick True now s) = RETRACTING \<and> isRetracted (tick True now s))
   \<and> (\<exists>x. reachable x \<and> isRetracted x \<and> currentState x \<noteq> RETRACTED)
   \<and> (loop rainStatus rd (t\<lparr>isRetracted := b\<rparr>))\<lparr>isRetracted := c\<rparr>
       = (loop rainStatus rd t)\<lparr>isRetracted := c\<rparr>"
proof -
  assume r: "reachable s"
  have 1: "isRetracted s \<and> currentState (tick True now s) = RETRACTING \<and> isRetracted (tick True now s)"
    if e: "currentState s = EXTENDING"
  proof -
    have "isRetracted s" using drive_inv_reachable [OF r] e by (simp add: drive_inv_def)
    then show ?thesis using loop_EXTENDING_rain [OF e, of "sample now"] by (simp add: tick_def)
  qed
  have 2: "\<exists>x. reachable x \<and> isRetracted x \<and> currentState x \<noteq> RETRACTED"
    using reachable_extending_at_10000 extending_at_10000_fields by (intro exI [of _ extending_at_10000]) simp
  show ?thesis using 1 2 loop_ignores_isRetracted by blast
qed

theorem isRetracted_stale_witness:
  "reachable extending_at_10000 \<and> currentState extending_at_10000 = EXTENDING
   \<and> isRetracted extending_at_10000
   \<and> currentState (tick True 12000 extending_at_10000) = RETRACTING
   \<and> isRetracted (tick True 12000 extending_at_10000)"
  using isRetracted_stale [OF reachable_extending_at_10000, of 12000]
  by (simp add: reachable_extending_at_10000 extending_at_10000_fields)

subsection \<open>Ticks, state by state\<close>

lemma tick_fields:
  "retractionDelay (tick r n s) = retractionDelay s"
  "motorRunTime (tick r n s) = motorRunTime s"
  "lastRainTime (tick r n s) = (if r then n else lastRainTime s)"
  by (simp_all add: tick_def loop_fields sample_def)

lemma tick_EXTENDED:
  "currentState s = EXTENDED \<Longrightarrow>
   currentState (tick r n s) = (if r then RETRACTING else EXTENDED)
   \<and> motorStartTime (tick r n s) = (if r then n else motorStartTime s)"
  by (simp add: tick_def sample_def loop_defs)

lemma tick_RETRACTING:
  "currentState s = RETRACTING \<Longrightarrow>
   currentState (tick r n s) =
     (if motorRunTime s \<le> n - motorStartTime s then RETRACTED else RETRACTING)
   \<and> motorStartTime (tick r n s) = motorStartTime s"
  by (simp add: tick_def sample_def loop_defs)

lemma tick_RETRACTED:
  "currentState s = RETRACTED \<Longrightarrow>
   currentState (tick r n s) =
     (if \<not> r \<and> retractionDelay s \<le> n - lastRainTime s then EXTENDING else RETRACTED)"
  by (simp add: tick_def sample_def loop_defs)

lemma run_fields:
  "retractionDelay (run ins s) = retractionDelay s"
  "motorRunTime (run ins s) = motorRunTime s"
  by (induction ins arbitrary: s) (auto simp: tick_fields)

lemma retracting_holds:
  "currentState s = RETRACTING \<Longrightarrow>
   \<forall>(r, n) \<in> set ins. n - motorStartTime s < motorRunTime s \<Longrightarrow>
   currentState (run ins s) = RETRACTING \<and> motorStartTime (run ins s) = motorStartTime s"
proof (induction ins arbitrary: s)
  case Nil
  then show ?case by simp
next
  case (Cons a ins)
  obtain r n where a: "a = (r, n)" by (cases a)
  have lt: "n - motorStartTime s < motorRunTime s" using Cons.prems(2) a by simp
  have st: "currentState (tick r n s) = RETRACTING" "motorStartTime (tick r n s) = motorStartTime s"
    using tick_RETRACTING [OF Cons.prems(1), of r n] lt by (simp_all add: not_le)
  have "\<forall>(r', n') \<in> set ins. n' - motorStartTime (tick r n s) < motorRunTime (tick r n s)"
    using Cons.prems(2) by (simp add: st tick_fields)
  from Cons.IH [OF st(1) this] show ?case by (simp add: a st)
qed

subsection \<open>Timing of the retraction\<close>

text \<open>
  Claim C3. From a state in \<open>EXTENDED\<close>, a tick at time \<open>t0\<close> with rain leads to
  \<open>RETRACTING\<close> with \<open>motorStartTime = t0\<close>. Whatever the rain samples of the ticks that
  follow, as long as their times \<open>n\<close> satisfy \<open>n - t0 < motorRunTime\<close> the state stays
  \<open>RETRACTING\<close> after each of them, and the first tick whose time \<open>now\<close> satisfies
  \<open>now - t0 \<ge> motorRunTime\<close> ends in \<open>RETRACTED\<close>. The subtraction is the 32-bit one of
  the code.
\<close>

theorem retraction_completes_on_time:
  "currentState s = EXTENDED \<Longrightarrow>
   \<forall>(r, n) \<in> set ins. n - t0 < motorRunTime s \<Longrightarrow>
   motorRunTime s \<le> now - t0 \<Longrightarrow>
   currentState (tick True t0 s) = RETRACTING \<and> motorStartTime (tick True t0 s) = t0
   \<and> (\<forall>k \<le> length ins. currentState (run (take k ins) (tick True t0 s)) = RETRACTING)
   \<and> currentState (tick r now (run ins (tick True t0 s))) = RETRACTED"
proof -
  assume e: "currentState s = EXTENDED"
    and early: "\<forall>(r, n) \<in> set ins. n - t0 < motorRunTime s"
    and due: "motorRunTime s \<le> now - t0"
  let ?s1 = "tick True t0 s"
  have s1: "currentState ?s1 = RETRACTING" "motorStartTime ?s1 = t0"
    using tick_EXTENDED [OF e, of True t0] by simp_all
  have hold: "currentState (run xs ?s1) = RETRACTING \<and> motorStartTime (run xs ?s1) = t0"
    if "set xs \<subseteq> set ins" for xs
  proof -
    have "\<forall>(r, n) \<in> set xs. n - motorStartTime ?s1 < motorRunTime ?s1"
      using early that by (auto simp: s1 tick_fields)
    from retracting_holds [OF s1(1) this] show ?thesis by (simp add: s1)
  qed
  have mid: "\<forall>k \<le> length ins. currentState (run (take k ins) ?s1) = RETRACTING"
    using hold by (simp add: set_take_subset)
  have fin: "currentState (tick r now (run ins ?s1)) = RETRACTED"
    using hold [of ins] due tick_RETRACTING [of "run ins ?s1" r now]
    by (simp add: run_fields tick_fields)
  show ?thesis using s1 mid fin by simp
qed

text \<open>
  Scenario B with three more ticks in between: rain at 0, ticks at 100, 2500 and 4999,
  completion at 5000.
\<close>

theorem retraction_completes_on_time_witness:
  "currentState booted = EXTENDED
   \<and> (100 - 0 < motorRunTime booted \<and> 2500 - 0 < motorRunTime booted \<and> 4999 - 0 < motorRunTime booted)
   \<and> motorRunTime booted \<le> 5000 - 0
   \<and> currentState (tick True 0 booted) = RETRACTING \<and> motorStartTime (tick True 0 booted) = 0
   \<and> currentState (run [(True, 100), (False, 2500)] (tick True 0 booted)) = RETRACTING
   \<and> currentState (run [(True, 100), (False, 2500), (True, 4999)] (tick True 0 booted)) = RETRACTING
   \<and> currentState (tick False 5000 (run [(True, 100), (False, 2500), (True, 4999)] (tick True 0 booted)))
       = RETRACTED"
proof -
  have h: "\<forall>(r, n) \<in> set [(True, 100), (False, 2500), (True, 4999)]. n - 0 < motorRunTime booted"
    by (simp add: booted_fields)
  have d: "motorRunTime booted \<le> 5000 - 0" by (simp add: booted_fields)
  from retraction_completes_on_time [OF booted_fields(1) h d, of False]
  have a: "currentState (tick True 0 booted) = RETRACTING" "motorStartTime (tick True 0 booted) = 0"
    and m: "\<forall>k \<le> 3. currentState (run (take k [(True, 100), (False, 2500), (True, 4999)]) (tick True 0 booted)) = RETRACTING"
    and f: "currentState (tick False 5000 (run [(True, 100), (False, 2500), (True, 4999)] (tick True 0 booted))) = RETRACTED"
    by simp_all
  have m2: "currentState (run [(True, 100), (False, 2500)] (tick True 0 booted)) = RETRACTING"
    "currentState (run [(True, 100), (False, 2500), (True, 4999)] (tick True 0 booted)) = RETRACTING"
    using m [rule_format, of 2] m [rule_format, of 3]
    by (simp_all add: numeral_2_eq_2 numeral_3_eq_3)
  show ?thesis using a m2 f by (simp add: booted_fields)
qed

subsection \<open>The dry period before extension\<close>

lemma retracted_holds:
  "currentState s = RETRACTED \<Longrightarrow>
   \<forall>n \<in> set dry. n - lastRainTime s < retractionDelay s \<Longrightarrow>
   currentState (run (map (Pair False) dry) s) = RETRACTED
   \<and> lastRainTime (run (map (Pair False) dry) s) = lastRainTime s"
proof (induction dry arbitrary: s)
  case Nil
  then show ?case by simp
next
  case (Cons n dry)
  have lt: "n - lastRainTime s < retractionDelay s" using Cons.prems(2) by simp
  have st: "currentState (tick False n s) = RETRACTED" "lastRainTime (tick False n s) = lastRainTime s"
    using tick_RETRACTED [OF Cons.prems(1), of False n] lt by (simp_all add: not_le tick_fields)
  have "\<forall>n' \<in> set dry. n' - lastRainTime (tick False n s) < retractionDelay (tick False n s)"
    using Cons.prems(2) by (simp add: st tick_fields)
  from Cons.IH [OF st(1) this] show ?case by (simp add: st)
qed

lemma retracted_at_5000_fields:
  "currentState retracted_at_5000 = RETRACTED" "lastRainTime retracted_at_5000 = 0"
  "retractionDelay retracted_at_5000 = 10000" "motorsRunning retracted_at_5000 = False"
  "direction retracted_at_5000 = stopped_dir" "isRetracted retracted_at_5000 = True"
  "motorStartTime retracted_at_5000 = 0"
  by (simp_all add: retracted_at_5000_def booted_def setup_sketch_def power_on_def tick_def
      sample_def loop_defs pin_defs dir_defs)

text \<open>
  Claim C4. In \<open>RETRACTED\<close>, a tick ends in \<open>EXTENDING\<close> exactly when it samples no rain
  and \<open>now - lastRainTime \<ge> retractionDelay\<close>. A rainy tick at time \<open>t1\<close> keeps the state
  \<open>RETRACTED\<close> and sets \<open>lastRainTime\<close> to \<open>t1\<close>; the dry ticks after it whose times
  \<open>n\<close> satisfy \<open>n - t1 < retractionDelay\<close> all leave the state \<open>RETRACTED\<close>, and the
  first dry tick at a time \<open>n'\<close> with \<open>n' - t1 \<ge> retractionDelay\<close> starts the extension.
\<close>

theorem extension_waits_for_dry_period:
  "currentState s = RETRACTED \<Longrightarrow>
   (currentState (tick rainDetected now s) = EXTENDING
      \<longleftrightarrow> \<not> rainDetected \<and> retractionDelay s \<le> now - lastRainTime s)
   \<and> ((\<forall>n \<in> set dry. n - t1 < retractionDelay s) \<and> retractionDelay s \<le> n' - t1 \<longrightarrow>
        currentState (tick True t1 s) = RETRACTED \<and> lastRainTime (tick True t1 s) = t1
        \<and> (\<forall>k \<le> length dry.
              currentState (run (map (Pair False) (take k dry)) (tick True t1 s)) = RETRACTED)
        \<and> currentState (tick False n' (run (map (Pair False) dry) (tick True t1 s))) = EXTENDING)"
proof -
  assume e: "currentState s = RETRACTED"
  have 1: "currentState (tick rainDetected now s) = EXTENDING
      \<longleftrightarrow> \<not> rainDetected \<and> retractionDelay s \<le> now - lastRainTime s"
    using tick_RETRACTED [OF e, of rainDetected now] by simp
  let ?s1 = "tick True t1 s"
  have s1: "currentState ?s1 = RETRACTED" "lastRainTime ?s1 = t1"
    using tick_RETRACTED [OF e, of True t1] by (simp_all add: tick_fields)
  have 2: "(\<forall>k \<le> length dry.
              currentState (run (map (Pair False) (take k dry)) ?s1) = RETRACTED)
        \<and> currentState (tick False n' (run (map (Pair False) dry) ?s1)) = EXTENDING"
    if early: "\<forall>n \<in> set dry. n - t1 < retractionDelay s" and due: "retractionDelay s \<le> n' - t1"
  proof -
    have hold: "currentState (run (map (Pair False) xs) ?s1) = RETRACTED
        \<and> lastRainTime (run (map (Pair False) xs) ?s1) = t1" if "set xs \<subseteq> set dry" for xs
    proof -
      have "\<forall>n \<in> set xs. n - lastRainTime ?s1 < retractionDelay ?s1"
        using early that by (auto simp: s1 tick_fields)
      from retracted_holds [OF s1(1) this] show ?thesis by (simp add: s1)
    qed
    have mid: "\<forall>k \<le> length dry. currentState (run (map (Pair False) (take k dry)) ?s1) = RETRACTED"
      using hold by (simp add: set_take_subset)
    have fin: "currentState (tick False n' (run (map (Pair False) dry) ?s1)) = EXTENDING"
      using hold [of dry] due tick_RETRACTED [of "run (map (Pair False) dry) ?s1" False n']
      by (simp add: run_fields tick_fields)
    show ?thesis using mid fin by simp
  qed
  show ?thesis using 1 s1 2 by blast
qed

text \<open>
  Scenario C at its boundary (dry since 0, tick at 10000), and a rain sample at 7000 that
  moves the earliest extension to 17000.
\<close>

theorem extension_waits_for_dry_period_witness:
  "currentState retracted_at_5000 = RETRACTED
   \<and> currentState (tick False 10000 retracted_at_5000) = EXTENDING
   \<and> retractionDelay retracted_at_5000 \<le> 10000 - lastRainTime retracted_at_5000
   \<and> 8000 - 7000 < retractionDelay retracted_at_5000
   \<and> 12000 - 7000 < retractionDelay retracted_at_5000
   \<and> retractionDelay retracted_at_5000 \<le> 17000 - 7000
   \<and> currentState (tick True 7000 retracted_at_5000) = RETRACTED
   \<and> lastRainTime (tick True 7000 retracted_at_5000) = 7000
   \<and> currentState (run [(False, 8000), (False, 12000)] (tick True 7000 retracted_at_5000)) = RETRACTED
   \<and> currentState (tick False 17000
        (run [(False, 8000), (False, 12000)] (tick True 7000 retracted_at_5000))) = EXTENDING"
proof -
  note th = extension_waits_for_dry_period [OF retracted_at_5000_fields(1),
      of False 10000 "[8000, 12000]" 7000 17000]
  have h: "(\<forall>n \<in> set [8000, 12000]. n - 7000 < retractionDelay retracted_at_5000)
           \<and> retractionDelay retracted_at_5000 \<le> 17000 - 7000"
    by (simp add: retracted_at_5000_fields)
  from th h have a: "currentState (tick False 10000 retracted_at_5000) = EXTENDING
      \<longleftrightarrow> \<not> False \<and> retractionDelay retracted_at_5000 \<le> 10000 - lastRainTime retracted_at_5000"
    and b: "currentState (tick True 7000 retracted_at_5000) = RETRACTED"
      "lastRainTime (tick True 7000 retracted_at_5000) = 7000"
    and m: "\<forall>k \<le> length [8000, 12000::ulong].
      currentState (run (map (Pair False) (take k [8000, 12000])) (tick True 7000 retracted_at_5000)) = RETRACTED"
    and f: "currentState (tick False 17000
        (run (map (Pair False) [8000, 12000]) (tick True 7000 retracted_at_5000))) = EXTENDING"
    by blast+
  have a': "currentState (tick False 10000 retracted_at_5000) = EXTENDING"
    using a by (simp add: retracted_at_5000_fields)
  have m2: "currentState (run (map (Pair False) [8000, 12000]) (tick True 7000 retracted_at_5000)) = RETRACTED"
    using m [rule_format, of 2] by simp
  show ?thesis using a' b m2 f by (simp add: retracted_at_5000_fields)
qed

subsection \<open>Ticks without a transition\<close>

lemma tick_idle:
  "\<not> transition_guard s r n \<Longrightarrow>
   currentState (tick r n s) = currentState s \<and> motorStartTime (tick r n s) = motorStartTime s
   \<and> direction (tick r n s) = direction s \<and> motorsRunning (tick r n s) = motorsRunning s
   \<and> serialOut (tick r n s) = serialOut s"
  by (cases "currentState s")
     (auto simp: transition_guard_def tick_def sample_def loop_defs dir_defs pin_defs)

lemma tick_idle_guard:
  "\<not> transition_guard s r n \<Longrightarrow> transition_guard (tick r n s) r m = transition_guard s r m"
  using tick_idle [of s r n]
  by (cases "currentState s") (auto simp: transition_guard_def tick_fields)

text \<open>
  Claim C5. Take any state, a rain value and a list of times at none of which the
  transition condition of the state holds for that rain value. Ticking through the whole
  list with that rain value leaves \<open>currentState\<close>, \<open>motorStartTime\<close>, the direction
  outputs, \<open>motorsRunning\<close> and the PWM duties as they were. The serial log is unchanged
  too; every actuator function appends a line to it, so no motor start was issued again.
\<close>

theorem idle_ticks_change_nothing:
  "\<forall>now \<in> set ts. \<not> transition_guard s rainDetected now \<Longrightarrow>
   currentState (run (map (Pair rainDetected) ts) s) = currentState s
   \<and> motorStartTime (run (map (Pair rainDetected) ts) s) = motorStartTime s
   \<and> direction (run (map (Pair rainDetected) ts) s) = direction s
   \<and> motorsRunning (run (map (Pair rainDetected) ts) s) = motorsRunning s
   \<and> pwmDuty (run (map (Pair rainDetected) ts) s) = pwmDuty s
   \<and> serialOut (run (map (Pair rainDetected) ts) s) = serialOut s"
proof (induction ts arbitrary: s)
  case Nil
  then show ?case by simp
next
  case (Cons n ts)
  have g: "\<not> transition_guard s rainDetected n" using Cons.prems by simp
  have "\<forall>now \<in> set ts. \<not> transition_guard (tick rainDetected n s) rainDetected now"
    using Cons.prems by (simp add: tick_idle_guard [OF g])
  from Cons.IH [OF this] tick_idle [OF g] show ?case
    by (simp add: tick_def loop_fields)
qed

text \<open>Three dry ticks during the extension that started at 10000.\<close>

theorem idle_ticks_change_nothing_witness:
  "\<not> transition_guard extending_at_10000 False 10100
   \<and> \<not> transition_guard extending_at_10000 False 10200
   \<and> \<not> transition_guard extending_at_10000 False 14999
   \<and> currentState (run [(False, 10100), (False, 10200), (False, 14999)] extending_at_10000) = EXTENDING
   \<and> motorStartTime (run [(False, 10100), (False, 10200), (False, 14999)] extending_at_10000) = 10000
   \<and> direction (run [(False, 10100), (False, 10200), (False, 14999)] extending_at_10000) = extend_dir
   \<and> motorsRunning (run [(False, 10100), (False, 10200), (False, 14999)] extending_at_10000)
   \<and> serialOut (run [(False, 10100), (False, 10200), (False, 14999)] extending_at_10000)
       = serialOut extending_at_10000"
proof -
  have g: "\<forall>now \<in> set [10100, 10200, 14999]. \<not> transition_guard extending_at_10000 False now"
    by (simp add: transition_guard_def extending_at_10000_fields)
  from idle_ticks_change_nothing [OF g] g show ?thesis
    by (simp add: extending_at_10000_fields)
qed

subsection \<open>The time of the last rain\<close>

lemma lastRainTime_frame:
  "lastRainTime (setup_sketch s) = lastRainTime s"
  "lastRainTime (startRetractionMotors s) = lastRainTime s"
  "lastRainTime (startExtensionMotors s) = lastRainTime s"
  "lastRainTime (stopMotors s) = lastRainTime s"
  "lastRainTime (handleExtendedState r rd s) = lastRainTime s"
  "lastRainTime (handleRetractingState r rd s) = lastRainTime s"
  "lastRainTime (handleRetractedState r rd s) = lastRainTime s"
  "lastRainTime (handleExtendingState r rd s) = lastRainTime s"
  "lastRainTime (updateStatusLED rd s) = lastRainTime s"
  by (simp_all add: setup_sketch_def updateStatusLED_def handler_defs motor_defs hw_defs
      split: SystemState.splits)

lemma lastRainTime_run_mem:
  "lastRainTime (run ins s) \<in> insert (lastRainTime s) (snd ` set ins)"
proof (induction ins arbitrary: s)
  case Nil
  then show ?case by simp
next
  case (Cons a ins)
  obtain r n where a: "a = (r, n)" by (cases a)
  from Cons.IH [of "tick r n s"] show ?case by (auto simp: a tick_fields split: if_splits)
qed

lemma lastRainTime_run_ge:
  "sorted (map snd ins) \<Longrightarrow> \<forall>n \<in> snd ` set ins. lastRainTime s \<le> n \<Longrightarrow>
   lastRainTime s \<le> lastRainTime (run ins s)"
proof (induction ins arbitrary: s)
  case Nil
  then show ?case by simp
next
  case (Cons a ins)
  obtain r n where a: "a = (r, n)" by (cases a)
  have s1: "lastRainTime s \<le> lastRainTime (tick r n s)"
    using Cons.prems(2) by (simp add: a tick_fields)
  have "\<forall>m \<in> snd ` set ins. lastRainTime (tick r n s) \<le> m"
    using Cons.prems by (auto simp: a tick_fields)
  moreover have "sorted (map snd ins)" using Cons.prems(1) by simp
  ultimately have "lastRainTime (tick r n s) \<le> lastRainTime (run ins (tick r n s))"
    by (rule Cons.IH [rotated])
  with s1 show ?case by (simp add: a)
qed

text \<open>
  Claim C6. \<open>lastRainTime\<close> is 0 in the initial state and after start-up. A pass of
  \<open>loop\<close> sets it to the clock reading when the sensor is \<open>HIGH\<close>, in whatever state the
  controller is, and leaves it alone otherwise; start-up, the actuator functions, the
  handlers and \<open>updateStatusLED\<close> never change it. Along a run from start-up whose tick
  times never decrease, its value never decreases: it is no larger after \<open>i\<close> ticks
  than after \<open>j \<ge> i\<close> ticks.
\<close>

theorem lastRainTime_monotone:
  "lastRainTime power_on = 0 \<and> lastRainTime (setup_sketch power_on) = 0
   \<and> lastRainTime (loop rainStatus rd s) = (if rainStatus = HIGH then at_rain rd else lastRainTime s)
   \<and> lastRainTime (tick rainDetected now s) = (if rainDetected then now else lastRainTime s)
   \<and> lastRainTime (setup_sketch s) = lastRainTime s
   \<and> lastRainTime (startRetractionMotors s) = lastRainTime s
   \<and> lastRainTime (startExtensionMotors s) = lastRainTime s
   \<and> lastRainTime (stopMotors s) = lastRainTime s
   \<and> lastRainTime (handleExtendedState rainDetected rd s) = lastRainTime s
   \<and> lastRainTime (handleRetractingState rainDetected rd s) = lastRainTime s
   \<and> lastRainTime (handleRetractedState rainDetected rd s) = lastRainTime s
   \<and> lastRainTime (handleExtendingState rainDetected rd s) = lastRainTime s
   \<and> lastRainTime (updateStatusLED rd s) = lastRainTime s
   \<and> (sorted (map snd ins) \<and> i \<le> j \<longrightarrow>
        lastRainTime (run (take i ins) booted) \<le> lastRainTime (run (take j ins) booted))"
proof -
  have mono: "lastRainTime (run (take i ins) booted) \<le> lastRainTime (run (take j ins) booted)"
    if srt: "sorted (map snd ins)" and ij: "i \<le> j"
  proof -
    define pre where "pre = take i ins"
    define post where "post = drop i (take j ins)"
    have split: "take j ins = pre @ post"
    proof -
      have "take i (take j ins) = take i ins" using ij by (simp add: min_def)
      then show ?thesis
        using append_take_drop_id [of i "take j ins"] by (simp add: pre_def post_def)
    qed
    have "sorted (map snd (take j ins))"
      using srt by (simp add: sorted_wrt_take flip: take_map)
    then have sp: "sorted (map snd pre @ map snd post)" by (simp add: split)
    have post_sorted: "sorted (map snd post)" using sp by (simp add: sorted_append)
    have "lastRainTime (run pre booted) \<in> insert 0 (snd ` set pre)"
      using lastRainTime_run_mem [of pre booted] by (simp add: booted_fields)
    then have "\<forall>n \<in> snd ` set post. lastRainTime (run pre booted) \<le> n"
      using sp by (fastforce simp: sorted_append)
    from lastRainTime_run_ge [OF post_sorted this] show ?thesis
      by (simp add: split run_append flip: pre_def)
  qed
  show ?thesis using mono
    by (simp add: lastRainTime_frame loop_fields tick_fields power_on_def)
qed

text \<open>Rain at 100, dry at 200, rain at 300: the value goes 0, 100, 100, 300.\<close>

theorem lastRainTime_monotone_witness:
  "sorted (map snd [(True, 100), (False, 200), (True, 300::ulong)]) \<and> (1::nat) \<le> 3
   \<and> lastRainTime (run [(True, 100)] booted) = 100
   \<and> lastRainTime (run [(True, 100), (False, 200), (True, 300)] booted) = 300
   \<and> lastRainTime (run [(True, 100)] booted)
       \<le> lastRainTime (run [(True, 100), (False, 200), (True, 300)] booted)"
proof -
  have h: "sorted (map snd [(True, 100), (False, 200), (True, 300::ulong)]) \<and> (1::nat) \<le> 3"
    by simp
  have "lastRainTime (run (take 1 [(True, 100), (False, 200), (True, 300)]) booted)
      \<le> lastRainTime (run (take 3 [(True, 100), (False, 200), (True, 300)]) booted)"
    using lastRainTime_monotone [of _ _ _ _ _ "[(True, 100), (False, 200), (True, 300)]" 1 3] h
    by blast
  then show ?thesis using h by (simp add: tick_fields)
qed

end
